theory Spec2Isabelle
  imports Complex_Main "HOL-Library.Char_ord" "HOL-Library.List_Lexorder" "HOL-Library.Multiset"
begin

section \<open>The persisted layout (database/migrations.ts)\<close>

text \<open>
  The three tables of \<^verbatim>\<open>runMigrations\<close>. A \<^verbatim>\<open>DATE\<close> is the text
  \<^verbatim>\<open>YYYY-MM-DD\<close> that \<^verbatim>\<open>new Date().toISOString().split('T')[0]\<close> yields; only its
  equality is used by the queries below. A \<^verbatim>\<open>DATETIME\<close> is SQLite's
  \<^verbatim>\<open>CURRENT_TIMESTAMP\<close>, a UTC text of fixed width whose textual order is the order of
  the instants, modelled as the number of seconds of the instant. Row ids and user ids are
  SQLite \<^verbatim>\<open>INTEGER\<close>s, a confidence is a finite \<^verbatim>\<open>REAL\<close>.
\<close>

type_synonym date = string
type_synonym timestamp = nat

record user =
  id_user :: int
  name :: string
  email :: string
  face_encoding :: string
  created_at :: timestamp
  is_active :: bool

record attendance =
  id_att :: int
  user_id :: int
  check_in_time :: timestamp
  check_out_time :: "timestamp option"
  date :: date
  confidence_score :: real

record face_sample =
  id_sample :: int
  user_id_sample :: int
  image_data_sample :: string
  encoding_data :: string
  created_at_sample :: timestamp

text \<open>
  The store: the rows of each table in insertion order, the \<^verbatim>\<open>AUTOINCREMENT\<close>
  counter of each table (the largest row id handed out so far), and whether the connection
  enforces the declared \<^verbatim>\<open>FOREIGN KEY\<close> clauses (SQLite's \<^verbatim>\<open>foreign_keys\<close>
  pragma, which the sources never set and the storage service decides).
\<close>

record db =
  users_v1 :: "user list"
  attendance_v1 :: "attendance list"
  face_samples_v1 :: "face_sample list"
  seq_users :: int
  seq_attendance :: int
  seq_samples :: int
  foreign_keys :: bool

datatype sql_error = UniqueViolation | ForeignKeyViolation

text \<open>The constraints the schema declares, as predicates on a store.\<close>

definition users_pk :: "db \<Rightarrow> bool" where
  "users_pk d = distinct (map id_user (users_v1 d))"

definition users_email_unique :: "db \<Rightarrow> bool" where
  "users_email_unique d = distinct (map email (users_v1 d))"

definition attendance_unique :: "db \<Rightarrow> bool" where
  "attendance_unique d = distinct (map (\<lambda>r. (user_id r, date r)) (attendance_v1 d))"

definition attendance_fk :: "db \<Rightarrow> bool" where
  "attendance_fk d =
     list_all (\<lambda>r. user_id r \<in> set (map id_user (users_v1 d))) (attendance_v1 d)"

section \<open>Attendance ledger (database/queries.ts)\<close>

definition is_today :: "int \<Rightarrow> date \<Rightarrow> attendance \<Rightarrow> bool" where
  "is_today userId today r = (user_id r = userId \<and> date r = today)"

text \<open>
  \<^verbatim>\<open>INSERT INTO attendance_v1 (user_id, date, confidence_score) VALUES (?, ?, ?)\<close>:
  rejected by \<^verbatim>\<open>UNIQUE(user_id, date)\<close> when the pair is stored already, and by the
  foreign key when it is enforced and no user has that id; otherwise the row is appended
  with the next id, \<^verbatim>\<open>check_in_time\<close> at its default \<^verbatim>\<open>CURRENT_TIMESTAMP\<close> and
  \<^verbatim>\<open>check_out_time\<close> NULL. A rejected statement changes nothing.
\<close>

definition insert_attendance ::
  "timestamp \<Rightarrow> int \<Rightarrow> date \<Rightarrow> real \<Rightarrow> db \<Rightarrow> sql_error + db" where
  "insert_attendance now userId today confidenceScore d =
     (if filter (is_today userId today) (attendance_v1 d) \<noteq> [] then Inl UniqueViolation
      else if foreign_keys d \<and> userId \<notin> set (map id_user (users_v1 d))
        then Inl ForeignKeyViolation
      else Inr (d\<lparr>attendance_v1 := attendance_v1 d @
                    [\<lparr>id_att = seq_attendance d + 1, user_id = userId,
                      check_in_time = now, check_out_time = None, date = today,
                      confidence_score = confidenceScore\<rparr>],
                  seq_attendance := seq_attendance d + 1\<rparr>))"

text \<open>
  \<^verbatim>\<open>UPDATE attendance_v1 SET check_in_time = CURRENT_TIMESTAMP, confidence_score = ?
  WHERE user_id = ? AND date = ?\<close>
\<close>

definition update_check_in :: "timestamp \<Rightarrow> real \<Rightarrow> int \<Rightarrow> date \<Rightarrow> db \<Rightarrow> db" where
  "update_check_in now confidenceScore userId today d =
     d\<lparr>attendance_v1 :=
         map (\<lambda>r. if is_today userId today r
                   then r\<lparr>check_in_time := now, confidence_score := confidenceScore\<rparr>
                   else r)
             (attendance_v1 d)\<rparr>"

text \<open>
  \<^verbatim>\<open>recordCheckIn\<close>: try the insert; whatever makes it fail, run the update.
  \<^verbatim>\<open>today\<close> is the date the function computes before the statement, \<^verbatim>\<open>now\<close> the
  \<^verbatim>\<open>CURRENT_TIMESTAMP\<close> of the statement that takes effect.
\<close>

definition recordCheckIn :: "date \<Rightarrow> timestamp \<Rightarrow> int \<Rightarrow> real \<Rightarrow> db \<Rightarrow> db" where
  "recordCheckIn today now userId confidenceScore d =
     (case insert_attendance now userId today confidenceScore d of
        Inr d' \<Rightarrow> d'
      | Inl error \<Rightarrow> update_check_in now confidenceScore userId today d)"

text \<open>
  \<^verbatim>\<open>recordCheckOut\<close>: \<^verbatim>\<open>UPDATE attendance_v1 SET check_out_time = CURRENT_TIMESTAMP
  WHERE user_id = ? AND date = ? AND check_out_time IS NULL\<close>
\<close>

definition recordCheckOut :: "date \<Rightarrow> timestamp \<Rightarrow> int \<Rightarrow> db \<Rightarrow> db" where
  "recordCheckOut today now userId d =
     d\<lparr>attendance_v1 :=
         map (\<lambda>r. if is_today userId today r \<and> check_out_time r = None
                   then r\<lparr>check_out_time := Some now\<rparr>
                   else r)
             (attendance_v1 d)\<rparr>"

text \<open>A run of \<^verbatim>\<open>recordCheckIn\<close> calls for one user on one day, oldest first.\<close>

fun checkIns :: "date \<Rightarrow> int \<Rightarrow> (timestamp \<times> real) list \<Rightarrow> db \<Rightarrow> db" where
  "checkIns today userId [] d = d"
| "checkIns today userId (c # cs) d =
     checkIns today userId cs (recordCheckIn today (fst c) userId (snd c) d)"

text \<open>Ledger operations as data, and a run of them.\<close>

datatype ledger_op =
    CheckIn date timestamp int real
  | CheckOut date timestamp int

fun op_time :: "ledger_op \<Rightarrow> timestamp" where
  "op_time (CheckIn today now userId c) = now"
| "op_time (CheckOut today now userId) = now"

fun apply_op :: "ledger_op \<Rightarrow> db \<Rightarrow> db" where
  "apply_op (CheckIn today now userId c) d = recordCheckIn today now userId c d"
| "apply_op (CheckOut today now userId) d = recordCheckOut today now userId d"

fun run_ops :: "ledger_op list \<Rightarrow> db \<Rightarrow> db" where
  "run_ops [] d = d"
| "run_ops (x # xs) d = run_ops xs (apply_op x d)"

definition empty_db :: "bool \<Rightarrow> db" where
  "empty_db fk = \<lparr>users_v1 = [], attendance_v1 = [], face_samples_v1 = [],
                  seq_users = 0, seq_attendance = 0, seq_samples = 0, foreign_keys = fk\<rparr>"

section \<open>User queries (database/queries.ts)\<close>

text \<open>
  \<^verbatim>\<open>getUserById\<close> and \<^verbatim>\<open>getUserByEmail\<close> return the first row of
  \<^verbatim>\<open>SELECT * FROM users_v1 WHERE ... AND is_active = 1\<close>, or null.
\<close>

definition getUserById :: "int \<Rightarrow> db \<Rightarrow> user option" where
  "getUserById i d =
     (case filter (\<lambda>u. id_user u = i \<and> is_active u) (users_v1 d) of
        [] \<Rightarrow> None
      | u # rest \<Rightarrow> Some u)"

definition getUserByEmail :: "string \<Rightarrow> db \<Rightarrow> user option" where
  "getUserByEmail e d =
     (case filter (\<lambda>u. email u = e \<and> is_active u) (users_v1 d) of
        [] \<Rightarrow> None
      | u # rest \<Rightarrow> Some u)"

text \<open>
  \<^verbatim>\<open>getAllUsers\<close>: \<^verbatim>\<open>SELECT id, name, email, created_at, is_active FROM users_v1
  WHERE is_active = 1 ORDER BY name\<close>; text is ordered bytewise.
\<close>

definition getAllUsers :: "db \<Rightarrow> (int \<times> string \<times> string \<times> timestamp \<times> bool) list" where
  "getAllUsers d =
     map (\<lambda>u. (id_user u, name u, email u, created_at u, is_active u))
         (sort_key name (filter is_active (users_v1 d)))"

text \<open>
  \<^verbatim>\<open>getAllUserEncodings\<close>: \<^verbatim>\<open>SELECT id, name, face_encoding FROM users_v1
  WHERE is_active = 1\<close>
\<close>

definition getAllUserEncodings :: "db \<Rightarrow> (int \<times> string \<times> string) list" where
  "getAllUserEncodings d =
     map (\<lambda>u. (id_user u, name u, face_encoding u)) (filter is_active (users_v1 d))"

text \<open>
  \<^verbatim>\<open>createUser\<close>: \<^verbatim>\<open>INSERT INTO users_v1 (name, email, face_encoding)\<close>, rejected
  by \<^verbatim>\<open>email UNIQUE\<close> when any row, active or not, has the email; the new row takes
  the next id and the defaults \<^verbatim>\<open>created_at = CURRENT_TIMESTAMP\<close>,
  \<^verbatim>\<open>is_active = 1\<close>. The function returns the new id.
\<close>

definition createUser ::
  "timestamp \<Rightarrow> string \<Rightarrow> string \<Rightarrow> string \<Rightarrow> db \<Rightarrow> sql_error + (int \<times> db)" where
  "createUser now nm em faceEncoding d =
     (if em \<in> set (map email (users_v1 d)) then Inl UniqueViolation
      else Inr (seq_users d + 1,
                d\<lparr>users_v1 := users_v1 d @
                      [\<lparr>id_user = seq_users d + 1, name = nm, email = em,
                        face_encoding = faceEncoding, created_at = now, is_active = True\<rparr>],
                  seq_users := seq_users d + 1\<rparr>))"

text \<open>\<^verbatim>\<open>addFaceSample\<close>: \<^verbatim>\<open>INSERT INTO face_samples_v1 (user_id, image_data, encoding_data)\<close>\<close>

definition addFaceSample ::
  "timestamp \<Rightarrow> int \<Rightarrow> string \<Rightarrow> string \<Rightarrow> db \<Rightarrow> sql_error + db" where
  "addFaceSample now userId imageData encodingData d =
     (if foreign_keys d \<and> userId \<notin> set (map id_user (users_v1 d))
        then Inl ForeignKeyViolation
      else Inr (d\<lparr>face_samples_v1 := face_samples_v1 d @
                    [\<lparr>id_sample = seq_samples d + 1, user_id_sample = userId,
                      image_data_sample = imageData, encoding_data = encodingData,
                      created_at_sample = now\<rparr>],
                  seq_samples := seq_samples d + 1\<rparr>))"

section \<open>Attendance views and statistics (database/queries.ts)\<close>

text \<open>
  A row of \<^verbatim>\<open>SELECT a.*, u.name as user_name FROM attendance_v1 a JOIN users_v1 u
  ON a.user_id = u.id\<close>: the \<^verbatim>\<open>AttendanceRecord\<close> of shared/types.ts.
\<close>

record AttendanceRecord = attendance +
  user_name :: string

definition join_user :: "attendance \<Rightarrow> user \<Rightarrow> AttendanceRecord" where
  "join_user a u =
     \<lparr>id_att = id_att a, user_id = user_id a, check_in_time = check_in_time a,
      check_out_time = check_out_time a, date = date a,
      confidence_score = confidence_score a, user_name = name u\<rparr>"

definition attendance_join_users :: "db \<Rightarrow> AttendanceRecord list" where
  "attendance_join_users d =
     concat (map (\<lambda>a. map (join_user a) (filter (\<lambda>u. id_user u = user_id a) (users_v1 d)))
                 (attendance_v1 d))"

text \<open>
  \<^verbatim>\<open>getTodayAttendance\<close>: the join, \<^verbatim>\<open>WHERE a.date = ?\<close>,
  \<^verbatim>\<open>ORDER BY a.check_in_time DESC\<close>. SQL leaves the order of rows with equal
  check-in times open; the model fixes one such order.
\<close>

definition getTodayAttendance :: "date \<Rightarrow> db \<Rightarrow> AttendanceRecord list" where
  "getTodayAttendance today d =
     rev (sort_key check_in_time (filter (\<lambda>x. date x = today) (attendance_join_users d)))"

record AttendanceStats =
  total_users :: nat
  present_today :: nat
  total_checkins_today :: nat
  recent_checkins :: "AttendanceRecord list"

text \<open>
  \<^verbatim>\<open>getAttendanceStats\<close>: \<^verbatim>\<open>COUNT(*)\<close> of the active users,
  \<^verbatim>\<open>COUNT(DISTINCT user_id)\<close> and \<^verbatim>\<open>COUNT(*)\<close> of today's attendance rows, and
  \<^verbatim>\<open>getTodayAttendance().slice(0, 10)\<close>, all read from one state of the store.
\<close>

definition getAttendanceStats :: "date \<Rightarrow> db \<Rightarrow> AttendanceStats" where
  "getAttendanceStats today d =
     \<lparr>total_users = length (filter is_active (users_v1 d)),
      present_today =
        length (remdups (map user_id (filter (\<lambda>a. date a = today) (attendance_v1 d)))),
      total_checkins_today = length (filter (\<lambda>a. date a = today) (attendance_v1 d)),
      recent_checkins = take 10 (getTodayAttendance today d)\<rparr>"

section \<open>Check-in route (routes/attendance.ts)\<close>

text \<open>
  The request body (\<^verbatim>\<open>CameraCapture\<close>), the JSON the recognition script prints
  (\<^verbatim>\<open>FaceRecognitionResult\<close>), and what running the script can come to: the command
  throws, exits with a code other than 0, prints text that \<^verbatim>\<open>JSON.parse\<close> rejects, or
  prints a JSON value. The script itself is an external program and a parameter of the
  handlers.
\<close>

record CameraCapture =
  image_data :: string
  timestamp :: string

record FaceRecognitionResult =
  success :: bool
  user_id_r :: "int option"
  user_name_r :: "string option"
  confidence :: real
  message :: string

datatype 'a service_output = CommandThrew | NonZeroExit | BadJson | Json 'a

text \<open>
  Responses: \<^verbatim>\<open>{success: false, message}\<close> with its HTTP status, the recognition result
  passed through unchanged, the check-in acknowledgement, and the registration
  acknowledgement. The wall-clock \<^verbatim>\<open>timestamp\<close> of the acknowledgement is left out.
\<close>

datatype response =
    Failure nat string
  | Passed FaceRecognitionResult
  | Recorded int "string option" real string
  | Registered int

fun succeeded :: "response \<Rightarrow> bool" where
  "succeeded (Failure status msg) = False"
| "succeeded (Passed r) = success r"
| "succeeded (Recorded u n c msg) = True"
| "succeeded (Registered u) = True"

definition welcome_message :: "string option \<Rightarrow> string" where
  "welcome_message n = ''Welcome '' @ (case n of None \<Rightarrow> ''undefined'' | Some x \<Rightarrow> x)
                 @ ''! Attendance recorded.''"

text \<open>
  \<^verbatim>\<open>attendance.post("/checkin")\<close>, on a parsed body. \<^verbatim>\<open>!image_data\<close> holds of
  the empty string; \<^verbatim>\<open>recognitionResult.user_id\<close> is falsy when it is missing or 0.
  An exception of the command or of \<^verbatim>\<open>JSON.parse\<close> reaches the outer \<^verbatim>\<open>catch\<close>.
\<close>

definition checkin ::
  "(string \<Rightarrow> (int \<times> string \<times> string) list \<Rightarrow> FaceRecognitionResult service_output) \<Rightarrow>
   date \<Rightarrow> timestamp \<Rightarrow> CameraCapture \<Rightarrow> db \<Rightarrow> response \<times> db" where
  "checkin recognize today now body d =
     (if image_data body = [] then (Failure 400 ''Image data is required'', d)
      else let knownFaces = getAllUserEncodings d in
        if length knownFaces = 0
          then (Failure 400 ''No registered users found in the system'', d)
        else case recognize (image_data body) knownFaces of
            CommandThrew \<Rightarrow> (Failure 500 ''Failed to process check-in'', d)
          | NonZeroExit \<Rightarrow> (Failure 500 ''Face recognition service error'', d)
          | BadJson \<Rightarrow> (Failure 500 ''Failed to process check-in'', d)
          | Json recognitionResult \<Rightarrow>
              if \<not> success recognitionResult then (Passed recognitionResult, d)
              else case user_id_r recognitionResult of
                  None \<Rightarrow> (Passed recognitionResult, d)
                | Some u \<Rightarrow>
                    if u = 0 then (Passed recognitionResult, d)
                    else (Recorded u (user_name_r recognitionResult)
                            (confidence recognitionResult)
                            (welcome_message (user_name_r recognitionResult)),
                          recordCheckIn today now u (confidence recognitionResult) d))"

section \<open>Registration route (routes/users.ts)\<close>

record RegistrationData =
  name_reg :: string
  email_reg :: string
  face_images :: "string list"

record EncodeResult =
  success_enc :: bool
  message_enc :: string
  encoding :: string

text \<open>
  The loop over \<^verbatim>\<open>face_images\<close>: the first image whose encoding fails ends the request
  with that failure; otherwise the encodings are collected in order.
\<close>

fun encode_all ::
  "(string \<Rightarrow> EncodeResult service_output) \<Rightarrow> string list \<Rightarrow> response + string list" where
  "encode_all encode [] = Inr []"
| "encode_all encode (imageData # rest) =
     (case encode imageData of
        CommandThrew \<Rightarrow> Inl (Failure 500 ''Error processing face image'')
      | NonZeroExit \<Rightarrow> Inl (Failure 500 ''Failed to process face image'')
      | BadJson \<Rightarrow> Inl (Failure 500 ''Error processing face image'')
      | Json result \<Rightarrow>
          if \<not> success_enc result
            then Inl (Failure 400 (if message_enc result = [] then ''Failed to extract face encoding''
                                   else message_enc result))
          else (case encode_all encode rest of
                  Inl failed \<Rightarrow> Inl failed
                | Inr faceEncodings \<Rightarrow> Inr (encoding result # faceEncodings)))"

text \<open>
  The loop storing the samples: a statement that fails ends the loop, and the rows stored
  before it stay.
\<close>

fun addFaceSamples ::
  "timestamp \<Rightarrow> int \<Rightarrow> (string \<times> string) list \<Rightarrow> db \<Rightarrow> sql_error option \<times> db" where
  "addFaceSamples now userId [] d = (None, d)"
| "addFaceSamples now userId (s # rest) d =
     (case addFaceSample now userId (fst s) (snd s) d of
        Inl e \<Rightarrow> (Some e, d)
      | Inr d' \<Rightarrow> addFaceSamples now userId rest d')"

text \<open>
  \<^verbatim>\<open>users.post("/register")\<close>, on a parsed body: validation, the lookup of the email
  among the active users, the encoding of every image, \<^verbatim>\<open>createUser\<close> with the first
  encoding, and one face sample per image. A statement that fails reaches the outer
  \<^verbatim>\<open>catch\<close>. The model gives the statements of one request one
  \<^verbatim>\<open>CURRENT_TIMESTAMP\<close>; only the \<^verbatim>\<open>created_at\<close> columns depend on it.
\<close>

definition register ::
  "(string \<Rightarrow> EncodeResult service_output) \<Rightarrow> timestamp \<Rightarrow> RegistrationData \<Rightarrow> db \<Rightarrow>
   response \<times> db" where
  "register encode now body d =
     (if name_reg body = [] \<or> email_reg body = [] \<or> face_images body = []
        then (Failure 400 ''Name, email, and at least one face image are required'', d)
      else case getUserByEmail (email_reg body) d of
          Some existingUser \<Rightarrow> (Failure 409 ''User with this email already exists'', d)
        | None \<Rightarrow>
            (case encode_all encode (face_images body) of
               Inl failed \<Rightarrow> (failed, d)
             | Inr [] \<Rightarrow> (Failure 400 ''No valid face encodings could be extracted'', d)
             | Inr (primaryEncoding # others) \<Rightarrow>
                 (case createUser now (name_reg body) (email_reg body) primaryEncoding d of
                    Inl e \<Rightarrow> (Failure 500 ''Failed to register user'', d)
                  | Inr (userId, d1) \<Rightarrow>
                      (case addFaceSamples now userId
                              (zip (face_images body) (primaryEncoding # others)) d1 of
                         (Some e, d2) \<Rightarrow> (Failure 500 ''Failed to register user'', d2)
                       | (None, d2) \<Rightarrow> (Registered userId, d2)))))"

text \<open>A registration request that passes the route's input validation.\<close>

definition valid_registration :: "RegistrationData \<Rightarrow> bool" where
  "valid_registration body =
     (name_reg body \<noteq> [] \<and> email_reg body \<noteq> [] \<and> face_images body \<noteq> [])"

text \<open>The emails of the active users are pairwise different.\<close>

definition active_emails_unique :: "db \<Rightarrow> bool" where
  "active_emails_unique d = distinct (map email (filter is_active (users_v1 d)))"

section \<open>Predicates on runs of the ledger\<close>

text \<open>A row whose check-out, when set, is not earlier than its check-in.\<close>

definition times_ordered :: "attendance \<Rightarrow> bool" where
  "times_ordered r =
     (case check_out_time r of None \<Rightarrow> True | Some out \<Rightarrow> check_in_time r \<le> out)"

text \<open>The clock does not run backwards along a run that starts at time \<open>t\<close>.\<close>

fun clock_ok :: "timestamp \<Rightarrow> ledger_op list \<Rightarrow> bool" where
  "clock_ok t [] = True"
| "clock_ok t (x # xs) = (t \<le> op_time x \<and> clock_ok (op_time x) xs)"

text \<open>The user already has a checked-out row for the day.\<close>

definition checked_out :: "int \<Rightarrow> date \<Rightarrow> db \<Rightarrow> bool" where
  "checked_out userId today d =
     (filter (\<lambda>r. is_today userId today r \<and> check_out_time r \<noteq> None) (attendance_v1 d) \<noteq> [])"

text \<open>No check-in of the run lands on a row that is checked out when the check-in runs.\<close>

fun no_recheckin :: "ledger_op list \<Rightarrow> db \<Rightarrow> bool" where
  "no_recheckin [] d = True"
| "no_recheckin (CheckIn today now userId c # xs) d =
     (\<not> checked_out userId today d
      \<and> no_recheckin xs (apply_op (CheckIn today now userId c) d))"
| "no_recheckin (CheckOut today now userId # xs) d =
     no_recheckin xs (apply_op (CheckOut today now userId) d)"

text \<open>
  The ledger invariant behind the ordering of the two timestamps: at time \<open>t\<close> no
  stored check-in lies in the future, and every row has its times in order.
\<close>

definition ledger_inv :: "timestamp \<Rightarrow> db \<Rightarrow> bool" where
  "ledger_inv t d =
     list_all (\<lambda>r. check_in_time r \<le> t \<and> times_ordered r) (attendance_v1 d)"

section \<open>Face matcher\<close>

text \<open>
  Modelled from the spec: the matcher's outcomes. The recognition script that the routes
  run (\<^verbatim>\<open>/python/face_recognition_service.py\<close>) is not among the sources; section 4.1
  of the specification gives its contract, over real numbers.
\<close>

datatype match_error = NoEnrolledUsers | InvalidEncoding

record MatchResult =
  matched :: bool
  userId_m :: "int option"
  distance :: real
  match_confidence :: real

text \<open>
  Modelled from the spec: \<^verbatim>\<open>clamp01\<close> of the confidence formula (the script is missing).
\<close>

definition clamp01 :: "real \<Rightarrow> real" where
  "clamp01 x = max 0 (min 1 x)"

text \<open>
  Modelled from the spec: the confidence formula of the missing script,
  \<^verbatim>\<open>confidence = clamp01(1 - distance / tolerance) * 100\<close>.
\<close>

definition confidence_of :: "real \<Rightarrow> real \<Rightarrow> real" where
  "confidence_of dst tolerance = clamp01 (1 - dst / tolerance) * 100"

text \<open>
  Modelled from the spec: the distance metric of the missing script, the Euclidean distance
  of two vectors.
\<close>

definition euclidean :: "real list \<Rightarrow> real list \<Rightarrow> real" where
  "euclidean p q = sqrt (sum_list (map (\<lambda>(a, b). (a - b)\<^sup>2) (zip p q)))"

text \<open>
  Modelled from the spec: the selection rule of the missing script, minimum distance with
  ties broken by the lowest user id.
\<close>

definition better :: "int \<times> real \<Rightarrow> int \<times> real \<Rightarrow> bool" where
  "better a b = (snd a < snd b \<or> (snd a = snd b \<and> fst a < fst b))"

text \<open>
  Modelled from the spec: the best candidate of a non-empty candidate list under the
  selection rule (the script is missing).
\<close>

fun nearest ::
  "real list \<Rightarrow> int \<times> real list \<Rightarrow> (int \<times> real list) list \<Rightarrow> int \<times> real" where
  "nearest probe c [] = (fst c, euclidean probe (snd c))"
| "nearest probe c (c' # cs) =
     (let here = (fst c, euclidean probe (snd c)); there = nearest probe c' cs
      in if better there here then there else here)"

text \<open>
  Modelled from the spec: \<^verbatim>\<open>matchFace(probe, candidates, tolerance)\<close> of the missing
  script. No candidates: \<^verbatim>\<open>NoEnrolledUsers\<close>. A candidate of another dimension,
  checked before any distance: \<^verbatim>\<open>InvalidEncoding\<close>. Best distance above the
  tolerance: no match, carrying the distance. Otherwise a match with the winner and the
  confidence.
\<close>

definition matchFace ::
  "real list \<Rightarrow> (int \<times> real list) list \<Rightarrow> real \<Rightarrow> match_error + MatchResult" where
  "matchFace probe candidates tolerance =
     (case candidates of
        [] \<Rightarrow> Inl NoEnrolledUsers
      | c # cs \<Rightarrow>
          if filter (\<lambda>x. length (snd x) \<noteq> length probe) candidates \<noteq> []
            then Inl InvalidEncoding
          else let best = nearest probe c cs in
            if snd best > tolerance
              then Inr \<lparr>matched = False, userId_m = None, distance = snd best,
                        match_confidence = confidence_of (snd best) tolerance\<rparr>
            else Inr \<lparr>matched = True, userId_m = Some (fst best), distance = snd best,
                      match_confidence = confidence_of (snd best) tolerance\<rparr>)"

text \<open>
  Stand-ins for the external script on concrete inputs: a recognition that always
  answers with user 1, and an encoding that always succeeds.
\<close>

definition recognize_stub ::
  "string \<Rightarrow> (int \<times> string \<times> string) list \<Rightarrow> FaceRecognitionResult service_output" where
  "recognize_stub imageData knownFaces =
     Json \<lparr>success = True, user_id_r = Some 1, user_name_r = Some ''Ada'',
           confidence = 95, message = ''ok''\<rparr>"

definition encode_stub :: "string \<Rightarrow> EncodeResult service_output" where
  "encode_stub imageData =
     Json \<lparr>success_enc = True, message_enc = [], encoding = ''[0,0,0]''\<rparr>"

text \<open>A small store used to run the operations on concrete inputs.\<close>

definition demo_db :: db where
  "demo_db =
     \<lparr>users_v1 =
        [\<lparr>id_user = 1, name = ''Ada'', email = ''ada@example.org'', face_encoding = ''[0,0,0]'',
          created_at = 10, is_active = True\<rparr>,
         \<lparr>id_user = 2, name = ''Bob'', email = ''bob@example.org'', face_encoding = ''[1,0,0]'',
          created_at = 20, is_active = False\<rparr>],
      attendance_v1 = [], face_samples_v1 = [],
      seq_users = 2, seq_attendance = 0, seq_samples = 0, foreign_keys = True\<rparr>"

text \<open>Bob's row in that store: a deactivated user.\<close>

definition bob :: user where
  "bob = \<lparr>id_user = 2, name = ''Bob'', email = ''bob@example.org'', face_encoding = ''[1,0,0]'',
          created_at = 20, is_active = False\<rparr>"

text \<open>The same store later on 1 May: Ada has checked in and out, Bob has checked in.\<close>

definition demo_day :: db where
  "demo_day =
     demo_db\<lparr>attendance_v1 :=
        [\<lparr>id_att = 1, user_id = 1, check_in_time = 100, check_out_time = Some 200,
          date = ''2024-05-01'', confidence_score = 90\<rparr>,
         \<lparr>id_att = 2, user_id = 2, check_in_time = 110, check_out_time = None,
          date = ''2024-05-01'', confidence_score = 80\<rparr>],
       seq_attendance := 2\<rparr>"

text \<open>
  A busier day: twelve users, each checked in once on 1 May, in no particular order of
  time.
\<close>

definition mk_user :: "int \<Rightarrow> string \<Rightarrow> user" where
  "mk_user i n = \<lparr>id_user = i, name = n, email = n @ ''@example.org'', face_encoding = ''[0,0,0]'',
                  created_at = 10, is_active = True\<rparr>"

definition mk_row :: "int \<Rightarrow> timestamp \<Rightarrow> attendance" where
  "mk_row i t = \<lparr>id_att = i, user_id = i, check_in_time = t, check_out_time = None,
                 date = ''2024-05-01'', confidence_score = 90\<rparr>"

definition demo_busy :: db where
  "demo_busy =
     \<lparr>users_v1 =
        [mk_user 1 ''Ann'',
         mk_user 2 ''Ben'',
         mk_user 3 ''Cal'',
         mk_user 4 ''Dee'',
         mk_user 5 ''Eve'',
         mk_user 6 ''Fay'',
         mk_user 7 ''Gus'',
         mk_user 8 ''Hal'',
         mk_user 9 ''Ida'',
         mk_user 10 ''Jay'',
         mk_user 11 ''Kim'',
         mk_user 12 ''Lee''],
      attendance_v1 =
        [mk_row 1 100,
         mk_row 2 220,
         mk_row 3 130,
         mk_row 4 90,
         mk_row 5 300,
         mk_row 6 210,
         mk_row 7 50,
         mk_row 8 170,
         mk_row 9 260,
         mk_row 10 140,
         mk_row 11 80,
         mk_row 12 190],
      face_samples_v1 = [],
      seq_users = 12, seq_attendance = 12, seq_samples = 0, foreign_keys = True\<rparr>"

section \<open>Helper facts about the ledger\<close>

lemma insert_attendance_Inl_iff:
  "(\<exists>e. insert_attendance now u t c d = Inl e) \<longleftrightarrow>
     (filter (is_today u t) (attendance_v1 d) \<noteq> [] \<or>
      (foreign_keys d \<and> u \<notin> set (map id_user (users_v1 d))))"
  by (simp add: insert_attendance_def)

lemma recordCheckIn_existing:
  "filter (is_today u t) (attendance_v1 d) \<noteq> [] \<Longrightarrow>
     recordCheckIn t now u c d = update_check_in now c u t d"
  by (simp add: recordCheckIn_def insert_attendance_def)

lemma is_today_update [simp]:
  "is_today u t (r\<lparr>check_in_time := a, confidence_score := b\<rparr>) = is_today u t r"
  "is_today u t (r\<lparr>check_out_time := x\<rparr>) = is_today u t r"
  by (simp_all add: is_today_def)

lemma key_map_update_check_in:
  "map (\<lambda>r. (user_id r, date r)) (attendance_v1 (update_check_in now c u t d)) =
   map (\<lambda>r. (user_id r, date r)) (attendance_v1 d)"
  by (simp add: update_check_in_def o_def if_distrib cong: if_cong)

lemma key_map_recordCheckOut:
  "map (\<lambda>r. (user_id r, date r)) (attendance_v1 (recordCheckOut t now u d)) =
   map (\<lambda>r. (user_id r, date r)) (attendance_v1 d)"
  by (simp add: recordCheckOut_def o_def if_distrib cong: if_cong)

lemma attendance_unique_recordCheckOut:
  "attendance_unique d \<Longrightarrow> attendance_unique (recordCheckOut t now u d)"
  by (simp add: attendance_unique_def key_map_recordCheckOut)

lemma filter_is_today_empty_iff:
  "filter (is_today u t) xs = [] \<longleftrightarrow> (u, t) \<notin> set (map (\<lambda>r. (user_id r, date r)) xs)"
  by (auto simp: filter_empty_conv is_today_def)

lemma attendance_unique_recordCheckIn:
  "attendance_unique d \<Longrightarrow> attendance_unique (recordCheckIn t now u c d)"
proof (cases "insert_attendance now u t c d")
  case (Inl e)
  then show "attendance_unique d \<Longrightarrow> ?thesis"
    by (simp add: recordCheckIn_def attendance_unique_def key_map_update_check_in)
next
  case (Inr d')
  then have empty: "filter (is_today u t) (attendance_v1 d) = []"
    by (auto simp: insert_attendance_def split: if_splits)
  assume "attendance_unique d"
  with Inr empty show ?thesis
    by (auto simp: recordCheckIn_def insert_attendance_def attendance_unique_def
        filter_is_today_empty_iff split: if_splits)
qed

lemma attendance_unique_apply_op:
  "attendance_unique d \<Longrightarrow> attendance_unique (apply_op x d)"
  by (cases x) (simp_all add: attendance_unique_recordCheckIn attendance_unique_recordCheckOut)

lemma attendance_unique_run_ops:
  "attendance_unique d \<Longrightarrow> attendance_unique (run_ops xs d)"
  by (induction xs arbitrary: d) (simp_all add: attendance_unique_apply_op)

lemma filter_key_distinct:
  "distinct (map (\<lambda>r. (user_id r, date r)) xs) \<Longrightarrow>
     filter (is_today u t) xs = [] \<or> (\<exists>r. filter (is_today u t) xs = [r])"
proof (induction xs)
  case Nil
  then show ?case by simp
next
  case (Cons x xs)
  show ?case
  proof (cases "is_today u t x")
    case True
    with Cons.prems have "(u, t) \<notin> set (map (\<lambda>r. (user_id r, date r)) xs)"
      by (auto simp: is_today_def)
    then have "filter (is_today u t) xs = []"
      by (simp add: filter_is_today_empty_iff)
    with True show ?thesis by simp
  next
    case False
    with Cons show ?thesis by simp
  qed
qed

lemma filter_update_check_in:
  "filter (is_today u t) (attendance_v1 (update_check_in now c u t d)) =
   map (\<lambda>r. r\<lparr>check_in_time := now, confidence_score := c\<rparr>)
       (filter (is_today u t) (attendance_v1 d))"
  by (induction "attendance_v1 d" arbitrary: d) (auto simp: update_check_in_def filter_map o_def)

lemma recordCheckIn_row:
  assumes uniq: "attendance_unique d"
    and fk: "foreign_keys d \<longrightarrow> u \<in> set (map id_user (users_v1 d))"
  shows "\<exists>r. filter (is_today u t) (attendance_v1 (recordCheckIn t now u c d)) = [r]
           \<and> check_in_time r = now \<and> confidence_score r = c"
proof (cases "filter (is_today u t) (attendance_v1 d) = []")
  case True
  with fk show ?thesis
    by (auto simp: recordCheckIn_def insert_attendance_def is_today_def)
next
  case False
  with uniq obtain r0 where r0: "filter (is_today u t) (attendance_v1 d) = [r0]"
    using filter_key_distinct [of "attendance_v1 d" u t] by (auto simp: attendance_unique_def)
  from False have "recordCheckIn t now u c d = update_check_in now c u t d"
    by (rule recordCheckIn_existing)
  with r0 show ?thesis by (simp add: filter_update_check_in)
qed

lemma recordCheckIn_frame:
  "users_v1 (recordCheckIn t now u c d) = users_v1 d"
  "foreign_keys (recordCheckIn t now u c d) = foreign_keys d"
  "face_samples_v1 (recordCheckIn t now u c d) = face_samples_v1 d"
  by (simp_all add: recordCheckIn_def insert_attendance_def update_check_in_def split: sum.splits)

section \<open>Repeated check-ins leave one row\<close>

text \<open>
  Claim C1. Start from a store that satisfies \<^verbatim>\<open>UNIQUE(user_id, date)\<close>, and let the user
  id be one the store accepts (any id when foreign keys are not enforced, the id of a
  stored user when they are). After any non-empty run of \<^verbatim>\<open>recordCheckIn\<close> calls for
  that user on the same day, exactly one row is stored for the user and the day, and its
  check-in time and confidence are those of the last call.
\<close>

theorem recordCheckIn_one_row_last_values:
  assumes "attendance_unique d"
    and "foreign_keys d \<longrightarrow> userId \<in> set (map id_user (users_v1 d))"
    and "calls \<noteq> []"
  shows "\<exists>r. filter (is_today userId today) (attendance_v1 (checkIns today userId calls d)) = [r]
           \<and> check_in_time r = fst (last calls) \<and> confidence_score r = snd (last calls)"
  using assms
proof (induction calls arbitrary: d)
  case Nil
  then show ?case by simp
next
  case (Cons c cs)
  let ?d = "recordCheckIn today (fst c) userId (snd c) d"
  show ?case
  proof (cases "cs = []")
    case True
    with Cons.prems show ?thesis
      using recordCheckIn_row [of d userId today "fst c" "snd c"] by simp
  next
    case False
    have "attendance_unique ?d"
      using Cons.prems(1) by (rule attendance_unique_recordCheckIn)
    moreover have "foreign_keys ?d \<longrightarrow> userId \<in> set (map id_user (users_v1 ?d))"
      using Cons.prems(2) by (simp add: recordCheckIn_frame)
    ultimately show ?thesis
      using Cons.IH [of ?d] False by simp
  qed
qed

text \<open>Scenario C of the specification, on the small store: 90 at time 100, then 95 at 200.\<close>

theorem recordCheckIn_one_row_last_values_witness:
  "attendance_unique demo_db
   \<and> foreign_keys demo_db \<and> 1 \<in> set (map id_user (users_v1 demo_db))
   \<and> [(100, 90), (200, 95)] \<noteq> ([] :: (timestamp \<times> real) list)
   \<and> (\<exists>r. filter (is_today 1 ''2024-05-01'')
              (attendance_v1 (checkIns ''2024-05-01'' 1 [(100, 90), (200, 95)] demo_db)) = [r]
          \<and> check_in_time r = 200 \<and> confidence_score r = 95)"
proof -
  have a: "attendance_unique demo_db"
    by (simp add: attendance_unique_def demo_db_def)
  have b: "foreign_keys demo_db \<longrightarrow> 1 \<in> set (map id_user (users_v1 demo_db))"
    by (simp add: demo_db_def)
  have c: "[(100, 90), (200, 95)] \<noteq> ([] :: (timestamp \<times> real) list)"
    by simp
  have b': "foreign_keys demo_db \<and> 1 \<in> set (map id_user (users_v1 demo_db))"
    by (simp add: demo_db_def)
  show ?thesis
    using a b' c recordCheckIn_one_row_last_values [OF a b c, of "''2024-05-01''"] by simp
qed

section \<open>Order of check-in and check-out times\<close>

lemma ledger_inv_mono: "ledger_inv t d \<Longrightarrow> t \<le> t' \<Longrightarrow> ledger_inv t' d"
  by (auto simp: ledger_inv_def list_all_iff)

lemma ledger_inv_recordCheckOut:
  "ledger_inv t d \<Longrightarrow> t \<le> now \<Longrightarrow> ledger_inv now (recordCheckOut today now u d)"
  by (auto simp: ledger_inv_def list_all_iff recordCheckOut_def times_ordered_def)

lemma ledger_inv_recordCheckIn:
  assumes "ledger_inv t d" "t \<le> now" "\<not> checked_out u today d"
  shows "ledger_inv now (recordCheckIn today now u c d)"
proof (cases "insert_attendance now u today c d")
  case (Inr d')
  from assms(1,2) have "ledger_inv now d" by (rule ledger_inv_mono)
  moreover from Inr have "attendance_v1 d' = attendance_v1 d @
      [\<lparr>id_att = seq_attendance d + 1, user_id = u, check_in_time = now,
        check_out_time = None, date = today, confidence_score = c\<rparr>]"
    by (auto simp: insert_attendance_def split: if_splits)
  ultimately have "ledger_inv now d'"
    by (simp add: ledger_inv_def times_ordered_def)
  with Inr show ?thesis by (simp add: recordCheckIn_def)
next
  case (Inl e)
  from assms(3) have open_rows:
    "\<And>r. r \<in> set (attendance_v1 d) \<Longrightarrow> is_today u today r \<Longrightarrow> check_out_time r = None"
    by (auto simp: checked_out_def filter_empty_conv)
  from assms(1,2) have old: "ledger_inv now d" by (rule ledger_inv_mono)
  from Inl have "recordCheckIn today now u c d = update_check_in now c u today d"
    by (simp add: recordCheckIn_def)
  moreover have "ledger_inv now (update_check_in now c u today d)"
    using old open_rows
    by (auto simp: ledger_inv_def update_check_in_def list_all_iff times_ordered_def)
  ultimately show ?thesis by simp
qed

lemma ledger_inv_run_ops:
  "ledger_inv t d \<Longrightarrow> clock_ok t ops \<Longrightarrow> no_recheckin ops d \<Longrightarrow>
     \<exists>t'. ledger_inv t' (run_ops ops d)"
proof (induction ops arbitrary: t d)
  case Nil
  then show ?case by auto
next
  case (Cons x xs)
  show ?case
  proof (cases x)
    case (CheckIn today now u c)
    with Cons.prems have "ledger_inv now (apply_op x d)"
      by (simp add: ledger_inv_recordCheckIn)
    moreover from Cons.prems CheckIn have "clock_ok now xs" "no_recheckin xs (apply_op x d)"
      by simp_all
    ultimately show ?thesis using Cons.IH [of now "apply_op x d"] by simp
  next
    case (CheckOut today now u)
    with Cons.prems have "ledger_inv now (apply_op x d)"
      by (simp add: ledger_inv_recordCheckOut)
    moreover from Cons.prems CheckOut have "clock_ok now xs" "no_recheckin xs (apply_op x d)"
      by simp_all
    ultimately show ?thesis using Cons.IH [of now "apply_op x d"] by simp
  qed
qed

text \<open>
  Claim C2, as it is written, fails: \<^verbatim>\<open>recordCheckIn\<close> overwrites the check-in
  time of a row that is checked out and keeps the older check-out. Check-in at 100,
  check-out at 200, check-in again at 300, all on one day, leave a row checked in at 300
  and checked out at 200.
\<close>

theorem recheckin_after_checkout_counterexample:
  "attendance_v1 (run_ops [CheckIn ''2024-05-01'' 100 1 90, CheckOut ''2024-05-01'' 200 1,
                           CheckIn ''2024-05-01'' 300 1 95] demo_db)
     = [\<lparr>id_att = 1, user_id = 1, check_in_time = 300, check_out_time = Some 200,
         date = ''2024-05-01'', confidence_score = 95\<rparr>]
   \<and> \<not> list_all times_ordered
         (attendance_v1 (run_ops [CheckIn ''2024-05-01'' 100 1 90, CheckOut ''2024-05-01'' 200 1,
                                  CheckIn ''2024-05-01'' 300 1 95] demo_db))"
  by (simp add: demo_db_def recordCheckIn_def recordCheckOut_def insert_attendance_def
      update_check_in_def is_today_def times_ordered_def)

text \<open>
  Claim C2, amended. Along a run of \<^verbatim>\<open>recordCheckIn\<close> and \<^verbatim>\<open>recordCheckOut\<close>
  calls whose clock does not run backwards, started in a store whose rows have their times
  in order and no check-in after the start, and in which no check-in lands on a row that
  is already checked out: every row whose check-out is set has it no earlier than its
  check-in.
\<close>

theorem checkout_not_before_checkin:
  assumes "list_all (\<lambda>r. check_in_time r \<le> t \<and> times_ordered r) (attendance_v1 d)"
    and "clock_ok t ops"
    and "no_recheckin ops d"
  shows "list_all times_ordered (attendance_v1 (run_ops ops d))"
proof -
  from assms obtain t' where "ledger_inv t' (run_ops ops d)"
    using ledger_inv_run_ops [of t d ops] by (auto simp: ledger_inv_def)
  then show ?thesis by (auto simp: ledger_inv_def list_all_iff)
qed

theorem checkout_not_before_checkin_witness:
  "list_all (\<lambda>r. check_in_time r \<le> 0 \<and> times_ordered r) (attendance_v1 demo_db)
   \<and> clock_ok 0 [CheckIn ''2024-05-01'' 100 1 90, CheckIn ''2024-05-01'' 150 1 95,
                  CheckOut ''2024-05-01'' 200 1]
   \<and> no_recheckin [CheckIn ''2024-05-01'' 100 1 90, CheckIn ''2024-05-01'' 150 1 95,
                    CheckOut ''2024-05-01'' 200 1] demo_db
   \<and> list_all times_ordered
        (attendance_v1 (run_ops [CheckIn ''2024-05-01'' 100 1 90, CheckIn ''2024-05-01'' 150 1 95,
                                 CheckOut ''2024-05-01'' 200 1] demo_db))"
proof -
  let ?ops = "[CheckIn ''2024-05-01'' 100 1 90, CheckIn ''2024-05-01'' 150 1 95,
               CheckOut ''2024-05-01'' 200 1]"
  have a: "list_all (\<lambda>r. check_in_time r \<le> 0 \<and> times_ordered r) (attendance_v1 demo_db)"
    by (simp add: demo_db_def)
  have b: "clock_ok 0 ?ops" by simp
  have c: "no_recheckin ?ops demo_db"
    by (simp add: demo_db_def checked_out_def recordCheckIn_def insert_attendance_def
        update_check_in_def is_today_def)
  show ?thesis using a b c checkout_not_before_checkin [OF a b c] by simp
qed

section \<open>What a repeated check-in changes\<close>

text \<open>
  Claim C3. When \<^verbatim>\<open>recordCheckIn\<close> runs for a user and day that already have a row,
  no row is added or removed; a row of that user and day changes in its
  \<^verbatim>\<open>check_in_time\<close> and \<^verbatim>\<open>confidence_score\<close> only, so its check-out time stays;
  every other row stays as it is; and nothing but the attendance table changes in the
  store.
\<close>

theorem recordCheckIn_update_frame:
  assumes "filter (is_today userId today) (attendance_v1 d) \<noteq> []"
  shows "length (attendance_v1 (recordCheckIn today now userId c d)) = length (attendance_v1 d)
    \<and> (\<forall>i < length (attendance_v1 d).
          attendance_v1 (recordCheckIn today now userId c d) ! i =
            (if is_today userId today (attendance_v1 d ! i)
             then (attendance_v1 d ! i)\<lparr>check_in_time := now, confidence_score := c\<rparr>
             else attendance_v1 d ! i)
          \<and> check_out_time (attendance_v1 (recordCheckIn today now userId c d) ! i) =
              check_out_time (attendance_v1 d ! i))
    \<and> recordCheckIn today now userId c d =
        d\<lparr>attendance_v1 := attendance_v1 (recordCheckIn today now userId c d)\<rparr>"
proof -
  from assms have "recordCheckIn today now userId c d = update_check_in now c userId today d"
    by (rule recordCheckIn_existing)
  then show ?thesis by (simp add: update_check_in_def)
qed

theorem recordCheckIn_update_frame_witness:
  "filter (is_today 1 ''2024-05-01'') (attendance_v1 demo_day) \<noteq> []
   \<and> attendance_v1 (recordCheckIn ''2024-05-01'' 300 1 95 demo_day) =
       [\<lparr>id_att = 1, user_id = 1, check_in_time = 300, check_out_time = Some 200,
         date = ''2024-05-01'', confidence_score = 95\<rparr>,
        \<lparr>id_att = 2, user_id = 2, check_in_time = 110, check_out_time = None,
         date = ''2024-05-01'', confidence_score = 80\<rparr>]
   \<and> recordCheckIn ''2024-05-01'' 300 1 95 demo_day =
       demo_day\<lparr>attendance_v1 := attendance_v1 (recordCheckIn ''2024-05-01'' 300 1 95 demo_day)\<rparr>"
proof -
  have a: "filter (is_today 1 ''2024-05-01'') (attendance_v1 demo_day) \<noteq> []"
    by (simp add: demo_day_def is_today_def)
  have len: "length (attendance_v1 demo_day) = 2"
    by (simp add: demo_day_def)
  note t = recordCheckIn_update_frame [OF a, of 300 95]
  from t have l: "length (attendance_v1 (recordCheckIn ''2024-05-01'' 300 1 95 demo_day)) = 2"
    by (simp add: len)
  from t len have r0: "attendance_v1 (recordCheckIn ''2024-05-01'' 300 1 95 demo_day) ! 0 =
      \<lparr>id_att = 1, user_id = 1, check_in_time = 300, check_out_time = Some 200,
         date = ''2024-05-01'', confidence_score = 95\<rparr>"
    by (simp add: demo_day_def is_today_def)
  from t len have r1: "attendance_v1 (recordCheckIn ''2024-05-01'' 300 1 95 demo_day) ! 1 =
      \<lparr>id_att = 2, user_id = 2, check_in_time = 110, check_out_time = None,
         date = ''2024-05-01'', confidence_score = 80\<rparr>"
    by (simp add: demo_day_def is_today_def)
  have rows: "attendance_v1 (recordCheckIn ''2024-05-01'' 300 1 95 demo_day) =
       [\<lparr>id_att = 1, user_id = 1, check_in_time = 300, check_out_time = Some 200,
         date = ''2024-05-01'', confidence_score = 95\<rparr>,
        \<lparr>id_att = 2, user_id = 2, check_in_time = 110, check_out_time = None,
         date = ''2024-05-01'', confidence_score = 80\<rparr>]"
    using l r0 r1 by (simp add: list_eq_iff_nth_eq less_Suc_eq numeral_2_eq_2)
  from t have frame: "recordCheckIn ''2024-05-01'' 300 1 95 demo_day =
       demo_day\<lparr>attendance_v1 := attendance_v1 (recordCheckIn ''2024-05-01'' 300 1 95 demo_day)\<rparr>"
    by blast
  from a rows frame show ?thesis by blast
qed

section \<open>Check-out\<close>

text \<open>
  Claim C4. \<^verbatim>\<open>recordCheckOut\<close> always completes and never adds a row. It sets the
  check-out time to now on exactly the rows of the user and day whose check-out is unset,
  and changes nothing else; when there is no such row (no row at all, or already checked
  out) the store is unchanged; a second call after a first changes nothing.
\<close>

theorem recordCheckOut_effect:
  "length (attendance_v1 (recordCheckOut today now userId d)) = length (attendance_v1 d)
   \<and> (\<forall>i < length (attendance_v1 d).
         attendance_v1 (recordCheckOut today now userId d) ! i =
           (if is_today userId today (attendance_v1 d ! i) \<and> check_out_time (attendance_v1 d ! i) = None
            then (attendance_v1 d ! i)\<lparr>check_out_time := Some now\<rparr>
            else attendance_v1 d ! i))
   \<and> recordCheckOut today now userId d =
       d\<lparr>attendance_v1 := attendance_v1 (recordCheckOut today now userId d)\<rparr>
   \<and> (filter (\<lambda>r. is_today userId today r \<and> check_out_time r = None) (attendance_v1 d) = []
        \<longrightarrow> recordCheckOut today now userId d = d)
   \<and> recordCheckOut today later userId (recordCheckOut today now userId d) =
       recordCheckOut today now userId d"
proof (intro conjI)
  show "filter (\<lambda>r. is_today userId today r \<and> check_out_time r = None) (attendance_v1 d) = []
        \<longrightarrow> recordCheckOut today now userId d = d"
  proof
    assume "filter (\<lambda>r. is_today userId today r \<and> check_out_time r = None) (attendance_v1 d) = []"
    then have "map (\<lambda>r. if is_today userId today r \<and> check_out_time r = None
                   then r\<lparr>check_out_time := Some now\<rparr> else r) (attendance_v1 d) = attendance_v1 d"
      by (induction "attendance_v1 d" arbitrary: d) (auto simp: filter_empty_conv map_idI)
    then show "recordCheckOut today now userId d = d"
      by (simp add: recordCheckOut_def)
  qed
next
  show "recordCheckOut today later userId (recordCheckOut today now userId d) =
       recordCheckOut today now userId d"
    by (simp add: recordCheckOut_def o_def if_distrib cong: if_cong)
qed (simp_all add: recordCheckOut_def)


theorem recordCheckOut_effect_witness:
  "filter (\<lambda>r. is_today 1 ''2024-05-01'' r \<and> check_out_time r = None) (attendance_v1 demo_day) = []
   \<and> recordCheckOut ''2024-05-01'' 500 1 demo_day = demo_day
   \<and> (1 < length (attendance_v1 demo_day)
      \<and> attendance_v1 (recordCheckOut ''2024-05-01'' 500 2 demo_day) ! 1 =
        \<lparr>id_att = 2, user_id = 2, check_in_time = 110, check_out_time = Some 500,
         date = ''2024-05-01'', confidence_score = 80\<rparr>)"
proof -
  have a: "filter (\<lambda>r. is_today 1 ''2024-05-01'' r \<and> check_out_time r = None)
             (attendance_v1 demo_day) = []"
    by (simp add: demo_day_def is_today_def)
  have b: "1 < length (attendance_v1 demo_day)"
    by (simp add: demo_day_def)
  from a recordCheckOut_effect [of "''2024-05-01''" 500 1 demo_day]
  have c: "recordCheckOut ''2024-05-01'' 500 1 demo_day = demo_day" by blast
  from b recordCheckOut_effect [of "''2024-05-01''" 500 2 demo_day]
  have "attendance_v1 (recordCheckOut ''2024-05-01'' 500 2 demo_day) ! 1 =
           (if is_today 2 ''2024-05-01'' (attendance_v1 demo_day ! 1)
               \<and> check_out_time (attendance_v1 demo_day ! 1) = None
            then (attendance_v1 demo_day ! 1)\<lparr>check_out_time := Some 500\<rparr>
            else attendance_v1 demo_day ! 1)" by blast
  then have d: "attendance_v1 (recordCheckOut ''2024-05-01'' 500 2 demo_day) ! 1 =
        \<lparr>id_att = 2, user_id = 2, check_in_time = 110, check_out_time = Some 500,
         date = ''2024-05-01'', confidence_score = 80\<rparr>"
    by (simp add: demo_day_def is_today_def)
  from a b c d show ?thesis by blast
qed

section \<open>Statistics\<close>

lemma distinct_today_user_ids:
  "distinct (map (\<lambda>r. (user_id r, date r)) xs) \<Longrightarrow>
     distinct (map user_id (filter (\<lambda>a. date a = today) xs))"
proof (induction xs)
  case Nil
  then show ?case by simp
next
  case (Cons x xs)
  then show ?case by (auto simp: image_iff) 
qed

text \<open>
  Claim C5. In a store that satisfies \<^verbatim>\<open>UNIQUE(user_id, date)\<close>, and after any run of
  ledger operations on it, \<^verbatim>\<open>total_checkins_today\<close> equals \<^verbatim>\<open>present_today\<close> in
  the statistics.
\<close>

theorem checkins_today_eq_present_today:
  assumes "attendance_unique d"
  shows "total_checkins_today (getAttendanceStats today (run_ops ops d)) =
         present_today (getAttendanceStats today (run_ops ops d))"
proof -
  from assms have "attendance_unique (run_ops ops d)"
    by (rule attendance_unique_run_ops)
  then have "distinct (map user_id (filter (\<lambda>a. date a = today) (attendance_v1 (run_ops ops d))))"
    unfolding attendance_unique_def by (rule distinct_today_user_ids)
  then show ?thesis
    by (simp add: getAttendanceStats_def distinct_remdups_id)
qed

theorem checkins_today_eq_present_today_witness:
  "attendance_unique demo_day
   \<and> total_checkins_today (getAttendanceStats ''2024-05-01''
        (run_ops [CheckIn ''2024-05-01'' 300 1 95, CheckOut ''2024-05-01'' 400 2] demo_day)) = 2
   \<and> present_today (getAttendanceStats ''2024-05-01''
        (run_ops [CheckIn ''2024-05-01'' 300 1 95, CheckOut ''2024-05-01'' 400 2] demo_day)) = 2"
proof -
  have a: "attendance_unique demo_day"
    by (simp add: attendance_unique_def demo_day_def)
  have b: "total_checkins_today (getAttendanceStats ''2024-05-01''
        (run_ops [CheckIn ''2024-05-01'' 300 1 95, CheckOut ''2024-05-01'' 400 2] demo_day)) = 2"
    by (simp add: getAttendanceStats_def demo_day_def recordCheckIn_def recordCheckOut_def
        insert_attendance_def update_check_in_def is_today_def)
  from a b checkins_today_eq_present_today [OF a, of "''2024-05-01''"
      "[CheckIn ''2024-05-01'' 300 1 95, CheckOut ''2024-05-01'' 400 2]"]
  show ?thesis by simp
qed

lemma join_user_fields [simp]:
  "date (join_user a u) = date a"
  "check_in_time (join_user a u) = check_in_time a"
  "user_id (join_user a u) = user_id a"
  "user_name (join_user a u) = name u"
  by (simp_all add: join_user_def)

lemma set_attendance_join_users:
  "set (attendance_join_users d) =
     {join_user a u | a u. a \<in> set (attendance_v1 d) \<and> u \<in> set (users_v1 d)
                          \<and> id_user u = user_id a}"
  by (auto simp: attendance_join_users_def)

lemma unique_user_row:
  "distinct (map id_user us) \<Longrightarrow> i \<in> set (map id_user us) \<Longrightarrow>
     \<exists>u. filter (\<lambda>u. id_user u = i) us = [u]"
proof (induction us)
  case Nil
  then show ?case by simp
next
  case (Cons v vs)
  show ?case
  proof (cases "id_user v = i")
    case True
    with Cons.prems have "filter (\<lambda>u. id_user u = i) vs = []"
      by (force simp: filter_empty_conv image_iff)
    with True show ?thesis by simp
  next
    case False
    with Cons show ?thesis by auto
  qed
qed

lemma length_joined_rows:
  assumes "distinct (map id_user us)"
    and "list_all (\<lambda>r. user_id r \<in> set (map id_user us)) rows"
  shows "length (filter (\<lambda>x. date x = today)
           (concat (map (\<lambda>a. map (join_user a) (filter (\<lambda>u. id_user u = user_id a) us)) rows)))
         = length (filter (\<lambda>a. date a = today) rows)"
  using assms(2)
proof (induction rows)
  case Nil
  then show ?case by simp
next
  case (Cons a rows)
  from Cons.prems assms(1) obtain u where u: "filter (\<lambda>u. id_user u = user_id a) us = [u]"
    using unique_user_row [of us "user_id a"] by auto
  from Cons have "length (filter (\<lambda>x. date x = today)
           (concat (map (\<lambda>a. map (join_user a) (filter (\<lambda>u. id_user u = user_id a) us)) rows)))
         = length (filter (\<lambda>a. date a = today) rows)" by simp
  with u show ?case by simp
qed

lemma sorted_desc_getTodayAttendance:
  "sorted_wrt (\<lambda>x y. check_in_time y \<le> check_in_time x) (getTodayAttendance today d)"
proof -
  let ?J = "filter (\<lambda>x. date x = today) (attendance_join_users d)"
  have "sorted (map check_in_time (sort_key check_in_time ?J))"
    by (rule sorted_sort_key)
  then have "sorted_wrt (\<lambda>x y. check_in_time x \<le> check_in_time y) (sort_key check_in_time ?J)"
    by (simp add: sorted_wrt_map)
  then show ?thesis
    by (simp add: getTodayAttendance_def sorted_wrt_rev)
qed

lemma set_getTodayAttendance:
  "set (getTodayAttendance today d) =
     {x \<in> set (attendance_join_users d). date x = today}"
  by (auto simp: getTodayAttendance_def)

lemma take_drop_desc:
  assumes "sorted_wrt (\<lambda>x y. f y \<le> f x) xs" "x \<in> set xs" "x \<notin> set (take n xs)" "y \<in> set (take n xs)"
  shows "f x \<le> f y"
proof -
  have "set xs = set (take n xs) \<union> set (drop n xs)"
    by (metis append_take_drop_id set_append)
  with assms(2,3) have x: "x \<in> set (drop n xs)" by blast
  from assms(1) have "sorted_wrt (\<lambda>x y. f y \<le> f x) (take n xs @ drop n xs)"
    by (simp only: append_take_drop_id)
  then have "\<forall>a \<in> set (take n xs). \<forall>b \<in> set (drop n xs). f b \<le> f a"
    by (simp only: sorted_wrt_append) blast
  with x assms(4) show ?thesis by blast
qed

lemma truncate_join_user: "attendance.truncate (join_user a u) = a"
  by (simp add: join_user_def attendance.truncate_def)

lemma truncate_joined_rows:
  assumes "distinct (map id_user us)"
    and "list_all (\<lambda>r. user_id r \<in> set (map id_user us)) rows"
  shows "map attendance.truncate (filter (\<lambda>x. date x = today)
           (concat (map (\<lambda>a. map (join_user a) (filter (\<lambda>u. id_user u = user_id a) us)) rows)))
         = filter (\<lambda>a. date a = today) rows"
  using assms(2)
proof (induction rows)
  case Nil
  then show ?case by simp
next
  case (Cons a rows)
  from Cons.prems assms(1) obtain u where u: "filter (\<lambda>u. id_user u = user_id a) us = [u]"
    using unique_user_row [of us "user_id a"] by auto
  from Cons have "map attendance.truncate (filter (\<lambda>x. date x = today)
           (concat (map (\<lambda>a. map (join_user a) (filter (\<lambda>u. id_user u = user_id a) us)) rows)))
         = filter (\<lambda>a. date a = today) rows" by simp
  with u show ?case by (simp add: truncate_join_user)
qed

lemma mset_getTodayAttendance:
  "mset (getTodayAttendance today d) =
     mset (filter (\<lambda>x. date x = today) (attendance_join_users d))"
  by (simp add: getTodayAttendance_def)

lemma recent_checkins_prefix:
  assumes pk: "users_pk d" and fk: "attendance_fk d"
  shows "\<exists>rest.
      sorted_wrt (\<lambda>x y. check_in_time y \<le> check_in_time x)
        (recent_checkins (getAttendanceStats today d) @ rest)
    \<and> mset (recent_checkins (getAttendanceStats today d) @ rest) =
        mset (filter (\<lambda>x. date x = today) (attendance_join_users d))
    \<and> mset (map attendance.truncate (recent_checkins (getAttendanceStats today d) @ rest)) =
        mset (filter (\<lambda>a. date a = today) (attendance_v1 d))"
proof -
  let ?L = "getTodayAttendance today d"
  let ?R = "recent_checkins (getAttendanceStats today d)"
  have whole: "?R @ drop 10 ?L = ?L" by (simp add: getAttendanceStats_def)
  have desc: "sorted_wrt (\<lambda>x y. check_in_time y \<le> check_in_time x) ?L"
    by (rule sorted_desc_getTodayAttendance)
  have perm: "mset ?L = mset (filter (\<lambda>x. date x = today) (attendance_join_users d))"
    by (rule mset_getTodayAttendance)
  have "mset (map attendance.truncate ?L) = image_mset attendance.truncate (mset ?L)"
    by simp
  also have "\<dots> = mset (map attendance.truncate
                       (filter (\<lambda>x. date x = today) (attendance_join_users d)))"
    by (simp only: perm mset_map)
  also have "\<dots> = mset (filter (\<lambda>a. date a = today) (attendance_v1 d))"
    using truncate_joined_rows [of "users_v1 d" "attendance_v1 d" today] pk fk
    by (simp add: attendance_join_users_def users_pk_def attendance_fk_def)
  finally have rows: "mset (map attendance.truncate ?L) =
      mset (filter (\<lambda>a. date a = today) (attendance_v1 d))" .
  from desc perm rows have
    "sorted_wrt (\<lambda>x y. check_in_time y \<le> check_in_time x) (?R @ drop 10 ?L)
     \<and> mset (?R @ drop 10 ?L) = mset (filter (\<lambda>x. date x = today) (attendance_join_users d))
     \<and> mset (map attendance.truncate (?R @ drop 10 ?L)) =
        mset (filter (\<lambda>a. date a = today) (attendance_v1 d))"
    by (simp only: whole) 
  then show ?thesis by (rule exI)
qed

text \<open>
  Claim C6. In a store whose user ids are distinct (the primary key) and whose attendance
  rows all refer to a stored user (the foreign key), \<^verbatim>\<open>recent_checkins\<close> of the
  statistics has the length of today's rows capped at 10; it is sorted by check-in time,
  latest first; each of its rows is dated today and is an attendance row of the store
  joined with the user of that id, carrying that user's name; every attendance row
  dated today either is among the rows returned or has a check-in time no later than each
  row returned; and the rows returned are the first rows of a list, sorted by check-in time
  latest first, that holds every joined row of today exactly once and, without the names,
  every attendance row of today exactly once. So the rows returned are today's rows with
  the latest check-in times, each at most once, and all of today's rows when there are
  ten or fewer.
\<close>

theorem recent_checkins_latest_ten:
  assumes pk: "users_pk d" and fk: "attendance_fk d"
  shows "length (recent_checkins (getAttendanceStats today d)) \<le> 10
    \<and> length (recent_checkins (getAttendanceStats today d)) =
           min 10 (length (filter (\<lambda>a. date a = today) (attendance_v1 d)))
    \<and> sorted_wrt (\<lambda>x y. check_in_time y \<le> check_in_time x)
         (recent_checkins (getAttendanceStats today d))
    \<and> (\<forall>x \<in> set (recent_checkins (getAttendanceStats today d)).
          date x = today
          \<and> (\<exists>a \<in> set (attendance_v1 d). \<exists>u \<in> set (users_v1 d).
                id_user u = user_id a \<and> x = join_user a u \<and> user_name x = name u))
    \<and> (\<forall>a \<in> set (attendance_v1 d). date a = today \<longrightarrow>
          (\<exists>u \<in> set (users_v1 d). id_user u = user_id a
             \<and> (join_user a u \<in> set (recent_checkins (getAttendanceStats today d))
                \<or> (\<forall>y \<in> set (recent_checkins (getAttendanceStats today d)).
                      check_in_time a \<le> check_in_time y))))
    \<and> (\<exists>rest.
          sorted_wrt (\<lambda>x y. check_in_time y \<le> check_in_time x)
            (recent_checkins (getAttendanceStats today d) @ rest)
        \<and> mset (recent_checkins (getAttendanceStats today d) @ rest) =
            mset (filter (\<lambda>x. date x = today) (attendance_join_users d))
        \<and> mset (map attendance.truncate (recent_checkins (getAttendanceStats today d) @ rest)) =
            mset (filter (\<lambda>a. date a = today) (attendance_v1 d)))"
proof (intro conjI)
  let ?L = "getTodayAttendance today d"
  let ?R = "recent_checkins (getAttendanceStats today d)"
  have R: "?R = take 10 ?L" by (simp add: getAttendanceStats_def)
  show "length ?R \<le> 10" by (simp add: R)
  have "length ?L = length (filter (\<lambda>a. date a = today) (attendance_v1 d))"
    using length_joined_rows [of "users_v1 d" "attendance_v1 d" today] pk fk
    by (simp add: getTodayAttendance_def attendance_join_users_def users_pk_def attendance_fk_def)
  then show "length ?R = min 10 (length (filter (\<lambda>a. date a = today) (attendance_v1 d)))"
    by (simp add: R min.commute)
  have desc: "sorted_wrt (\<lambda>x y. check_in_time y \<le> check_in_time x) ?L"
    by (rule sorted_desc_getTodayAttendance)
  then show "sorted_wrt (\<lambda>x y. check_in_time y \<le> check_in_time x) ?R"
    unfolding R by (rule sorted_wrt_take)
  show "\<forall>x \<in> set ?R. date x = today
          \<and> (\<exists>a \<in> set (attendance_v1 d). \<exists>u \<in> set (users_v1 d).
                id_user u = user_id a \<and> x = join_user a u \<and> user_name x = name u)"
  proof
    fix x assume "x \<in> set ?R"
    then have "x \<in> set ?L" unfolding R by (rule in_set_takeD)
    then show "date x = today
          \<and> (\<exists>a \<in> set (attendance_v1 d). \<exists>u \<in> set (users_v1 d).
                id_user u = user_id a \<and> x = join_user a u \<and> user_name x = name u)"
      by (fastforce simp: set_getTodayAttendance set_attendance_join_users)
  qed
  show "\<forall>a \<in> set (attendance_v1 d). date a = today \<longrightarrow>
          (\<exists>u \<in> set (users_v1 d). id_user u = user_id a
             \<and> (join_user a u \<in> set ?R
                \<or> (\<forall>y \<in> set ?R. check_in_time a \<le> check_in_time y)))"
  proof (intro ballI impI)
    fix a assume a: "a \<in> set (attendance_v1 d)" and today: "date a = today"
    from a fk obtain u where u: "u \<in> set (users_v1 d)" "id_user u = user_id a"
      by (auto simp: attendance_fk_def list_all_iff)
    with a today have inL: "join_user a u \<in> set ?L"
      by (auto simp: set_getTodayAttendance set_attendance_join_users)
    have "join_user a u \<in> set ?R \<or> (\<forall>y \<in> set ?R. check_in_time a \<le> check_in_time y)"
    proof (cases "join_user a u \<in> set ?R")
      case True
      then show ?thesis by simp
    next
      case False
      have "\<forall>y \<in> set ?R. check_in_time a \<le> check_in_time y"
      proof
        fix y assume "y \<in> set ?R"
        with desc inL False have "check_in_time (join_user a u) \<le> check_in_time y"
          unfolding R by (rule take_drop_desc)
        then show "check_in_time a \<le> check_in_time y" by simp
      qed
      then show ?thesis by simp
    qed
    with u show "\<exists>u \<in> set (users_v1 d). id_user u = user_id a
             \<and> (join_user a u \<in> set ?R
                \<or> (\<forall>y \<in> set ?R. check_in_time a \<le> check_in_time y))"
      by blast
  qed
  show "\<exists>rest.
          sorted_wrt (\<lambda>x y. check_in_time y \<le> check_in_time x)
            (recent_checkins (getAttendanceStats today d) @ rest)
        \<and> mset (recent_checkins (getAttendanceStats today d) @ rest) =
            mset (filter (\<lambda>x. date x = today) (attendance_join_users d))
        \<and> mset (map attendance.truncate (recent_checkins (getAttendanceStats today d) @ rest)) =
            mset (filter (\<lambda>a. date a = today) (attendance_v1 d))"
    using pk fk by (rule recent_checkins_prefix)
qed

text \<open>
  On the busier day twelve rows are dated today and ten are returned: the two earliest
  check-ins, at 80 and at 50, are left out.
\<close>

theorem recent_checkins_latest_ten_witness:
  "users_pk demo_busy \<and> attendance_fk demo_busy
   \<and> length (filter (\<lambda>a. date a = ''2024-05-01'') (attendance_v1 demo_busy)) = 12
   \<and> length (recent_checkins (getAttendanceStats ''2024-05-01'' demo_busy)) = 10
   \<and> sorted_wrt (\<lambda>x y. check_in_time y \<le> check_in_time x)
        (recent_checkins (getAttendanceStats ''2024-05-01'' demo_busy))
   \<and> recent_checkins (getAttendanceStats ''2024-05-01'' demo_busy) =
      [join_user (mk_row 5 300) (mk_user 5 ''Eve''),
       join_user (mk_row 9 260) (mk_user 9 ''Ida''),
       join_user (mk_row 2 220) (mk_user 2 ''Ben''),
       join_user (mk_row 6 210) (mk_user 6 ''Fay''),
       join_user (mk_row 12 190) (mk_user 12 ''Lee''),
       join_user (mk_row 8 170) (mk_user 8 ''Hal''),
       join_user (mk_row 10 140) (mk_user 10 ''Jay''),
       join_user (mk_row 3 130) (mk_user 3 ''Cal''),
       join_user (mk_row 1 100) (mk_user 1 ''Ann''),
       join_user (mk_row 4 90) (mk_user 4 ''Dee'')]
   \<and> (\<exists>rest. mset (map attendance.truncate
                  (recent_checkins (getAttendanceStats ''2024-05-01'' demo_busy) @ rest)) =
               mset (filter (\<lambda>a. date a = ''2024-05-01'') (attendance_v1 demo_busy)))"
proof -
  have a: "users_pk demo_busy"
    by (simp add: users_pk_def demo_busy_def mk_user_def)
  have b: "attendance_fk demo_busy"
    by (simp add: attendance_fk_def demo_busy_def mk_user_def mk_row_def)
  have n: "length (filter (\<lambda>a. date a = ''2024-05-01'') (attendance_v1 demo_busy)) = 12"
    by (simp add: demo_busy_def mk_row_def)
  note t = recent_checkins_latest_ten [OF a b, of "''2024-05-01''"]
  from t have "length (recent_checkins (getAttendanceStats ''2024-05-01'' demo_busy)) =
      min 10 (length (filter (\<lambda>a. date a = ''2024-05-01'') (attendance_v1 demo_busy)))"
    by blast
  then have l: "length (recent_checkins (getAttendanceStats ''2024-05-01'' demo_busy)) = 10"
    by (simp only: n)
  from t have s: "sorted_wrt (\<lambda>x y. check_in_time y \<le> check_in_time x)
        (recent_checkins (getAttendanceStats ''2024-05-01'' demo_busy))"
    by blast
  have r: "recent_checkins (getAttendanceStats ''2024-05-01'' demo_busy) =
      [join_user (mk_row 5 300) (mk_user 5 ''Eve''),
       join_user (mk_row 9 260) (mk_user 9 ''Ida''),
       join_user (mk_row 2 220) (mk_user 2 ''Ben''),
       join_user (mk_row 6 210) (mk_user 6 ''Fay''),
       join_user (mk_row 12 190) (mk_user 12 ''Lee''),
       join_user (mk_row 8 170) (mk_user 8 ''Hal''),
       join_user (mk_row 10 140) (mk_user 10 ''Jay''),
       join_user (mk_row 3 130) (mk_user 3 ''Cal''),
       join_user (mk_row 1 100) (mk_user 1 ''Ann''),
       join_user (mk_row 4 90) (mk_user 4 ''Dee'')]"
    by (simp add: demo_busy_def getAttendanceStats_def getTodayAttendance_def
        attendance_join_users_def mk_user_def mk_row_def join_user_def)
  from t have m: "\<exists>rest. mset (map attendance.truncate
                  (recent_checkins (getAttendanceStats ''2024-05-01'' demo_busy) @ rest)) =
               mset (filter (\<lambda>a. date a = ''2024-05-01'') (attendance_v1 demo_busy))"
    by blast
  from a b n l s r m show ?thesis by blast
qed

section \<open>Check-in without enrolled users\<close>

text \<open>
  Claim C7. When no active user is enrolled, the check-in route records nothing and its
  response is unsuccessful whatever the request and whatever the recognition script would
  answer; for every request that carries a probe image the response is the 400 failure
  \<^verbatim>\<open>No registered users found in the system\<close>.
\<close>

theorem checkin_no_enrolled_users:
  assumes "getAllUserEncodings d = []"
  shows "snd (checkin recognize today now body d) = d
    \<and> \<not> succeeded (fst (checkin recognize today now body d))
    \<and> (image_data body \<noteq> [] \<longrightarrow>
         fst (checkin recognize today now body d) =
           Failure 400 ''No registered users found in the system'')"
  using assms by (simp add: checkin_def)


theorem checkin_no_enrolled_users_witness:
  "getAllUserEncodings (empty_db True) = []
   \<and> image_data \<lparr>image_data = ''photo'', timestamp = ''2024-05-01T08:00:00.000Z''\<rparr> \<noteq> []
   \<and> checkin recognize_stub
        ''2024-05-01'' 100 \<lparr>image_data = ''photo'', timestamp = ''2024-05-01T08:00:00.000Z''\<rparr>
        (empty_db True)
      = (Failure 400 ''No registered users found in the system'', empty_db True)"
proof -
  let ?rec = "recognize_stub"
  let ?body = "\<lparr>image_data = ''photo'', timestamp = ''2024-05-01T08:00:00.000Z''\<rparr>"
  have a: "getAllUserEncodings (empty_db True) = []"
    by (simp add: getAllUserEncodings_def empty_db_def)
  have b: "image_data ?body \<noteq> []" by simp
  from checkin_no_enrolled_users [OF a, of ?rec "''2024-05-01''" 100 ?body] b
  have "snd (checkin ?rec ''2024-05-01'' 100 ?body (empty_db True)) = empty_db True"
    and "fst (checkin ?rec ''2024-05-01'' 100 ?body (empty_db True)) =
           Failure 400 ''No registered users found in the system''"
    by blast+
  then have "checkin ?rec ''2024-05-01'' 100 ?body (empty_db True)
      = (Failure 400 ''No registered users found in the system'', empty_db True)"
    by (metis prod.collapse)
  with a b show ?thesis by blast
qed


section \<open>Confidence of a match\<close>

lemma confidence_of_bounds: "0 \<le> confidence_of dst t \<and> confidence_of dst t \<le> 100"
  by (simp add: confidence_of_def clamp01_def)

lemma clamp01_antimono: "a \<le> b \<Longrightarrow> clamp01 (1 - b) \<le> clamp01 (1 - a)"
  by (simp add: clamp01_def max_def min_def)

lemma clamp01_strict: "0 \<le> a \<Longrightarrow> a < b \<Longrightarrow> b \<le> 1 \<Longrightarrow> clamp01 (1 - b) < clamp01 (1 - a)"
  by (simp add: clamp01_def max_def min_def)

lemma confidence_of_antimono:
  assumes "0 < t" "d1 \<le> d2"
  shows "confidence_of d2 t \<le> confidence_of d1 t"
proof -
  from assms have "d1 / t \<le> d2 / t" by (simp add: divide_right_mono)
  then have "clamp01 (1 - d2 / t) \<le> clamp01 (1 - d1 / t)" by (rule clamp01_antimono)
  then show ?thesis unfolding confidence_of_def by (simp only: mult_right_mono zero_le_numeral)
qed

lemma confidence_of_strict:
  assumes "0 < t" "0 \<le> d1" "d1 < d2" "d2 \<le> t"
  shows "confidence_of d2 t < confidence_of d1 t"
proof -
  from assms have lt: "d1 / t < d2 / t" by (simp add: divide_strict_right_mono)
  from assms have "0 \<le> d1 / t" "d2 / t \<le> 1" by simp_all
  with lt have "clamp01 (1 - d2 / t) < clamp01 (1 - d1 / t)" by (simp only: clamp01_strict)
  then show ?thesis unfolding confidence_of_def by (simp only: mult_strict_right_mono zero_less_numeral)
qed

lemma matchFace_matched:
  "matchFace probe candidates t = Inr r \<Longrightarrow> matched r \<Longrightarrow>
     match_confidence r = confidence_of (distance r) t \<and> distance r \<le> t \<and> userId_m r \<noteq> None"
  by (auto simp: matchFace_def Let_def split: list.splits if_splits)

lemma sqrt_scenario: "sqrt (1/400) = 1/20"
  by (rule real_sqrt_unique) (simp_all add: power2_eq_square)

lemma scenario_A:
  "matchFace [5/100, 0, 0] [(U, [0, 0, 0])] (6/10) =
     Inr \<lparr>matched = True, userId_m = Some U, distance = 5/100, match_confidence = 275/3\<rparr>"
  by (simp add: matchFace_def euclidean_def confidence_of_def clamp01_def power2_eq_square sqrt_scenario)

text \<open>
  Claim C8. For a tolerance \<open>t > 0\<close>: a matched result carries the confidence
  \<open>clamp01 (1 - d / t) * 100\<close> of its distance \<open>d\<close>, between 0 and 100; the formula
  gives 100 at distance 0 and 0 at distance \<open>t\<close>; it never increases with the distance,
  and decreases strictly between 0 and \<open>t\<close>. Scenario A: the probe \<open>[0.05, 0, 0]\<close>
  against user \<open>U\<close> enrolled with \<open>[0, 0, 0]\<close> at tolerance 0.6 matches \<open>U\<close> at
  distance 0.05 with confidence 275/3, which is 91.7 to one decimal.
\<close>

theorem matchFace_confidence:
  assumes "0 < t"
  shows "(matchFace probe candidates t = Inr r \<and> matched r \<longrightarrow>
            match_confidence r = clamp01 (1 - distance r / t) * 100
            \<and> 0 \<le> match_confidence r \<and> match_confidence r \<le> 100)
    \<and> clamp01 (1 - 0 / t) * 100 = 100
    \<and> clamp01 (1 - t / t) * 100 = 0
    \<and> (d1 \<le> d2 \<longrightarrow> clamp01 (1 - d2 / t) * 100 \<le> clamp01 (1 - d1 / t) * 100)
    \<and> (0 \<le> d1 \<and> d1 < d2 \<and> d2 \<le> t \<longrightarrow> clamp01 (1 - d2 / t) * 100 < clamp01 (1 - d1 / t) * 100)
    \<and> matchFace [5/100, 0, 0] [(U, [0, 0, 0])] (6/10) =
         Inr \<lparr>matched = True, userId_m = Some U, distance = 5/100, match_confidence = 275/3\<rparr>
    \<and> \<bar>275/3 - 917/10\<bar> < (5/100 :: real)"
proof (intro conjI impI)
  assume "matchFace probe candidates t = Inr r \<and> matched r"
  then have m: "match_confidence r = confidence_of (distance r) t"
    using matchFace_matched by blast
  then show "match_confidence r = clamp01 (1 - distance r / t) * 100"
    by (simp add: confidence_of_def)
  from m show "0 \<le> match_confidence r" "match_confidence r \<le> 100"
    using confidence_of_bounds [of "distance r" t] by simp_all
next
  show "clamp01 (1 - 0 / t) * 100 = 100" by (simp add: clamp01_def)
  from assms show "clamp01 (1 - t / t) * 100 = 0" by (simp add: clamp01_def)
next
  assume "d1 \<le> d2"
  with assms show "clamp01 (1 - d2 / t) * 100 \<le> clamp01 (1 - d1 / t) * 100"
    using confidence_of_antimono [of t d1 d2] by (simp add: confidence_of_def)
next
  assume "0 \<le> d1 \<and> d1 < d2 \<and> d2 \<le> t"
  with assms show "clamp01 (1 - d2 / t) * 100 < clamp01 (1 - d1 / t) * 100"
    using confidence_of_strict [of t d1 d2] by (simp add: confidence_of_def)
next
  show "matchFace [5/100, 0, 0] [(U, [0, 0, 0])] (6/10) =
         Inr \<lparr>matched = True, userId_m = Some U, distance = 5/100, match_confidence = 275/3\<rparr>"
    by (rule scenario_A)
  show "\<bar>275/3 - 917/10\<bar> < (5/100 :: real)" by simp
qed


theorem matchFace_confidence_witness:
  "(0::real) < 6/10
   \<and> matchFace [5/100, 0, 0] [(7, [0, 0, 0])] (6/10) =
       Inr \<lparr>matched = True, userId_m = Some 7, distance = 5/100, match_confidence = 275/3\<rparr>
   \<and> matched \<lparr>matched = True, userId_m = Some 7, distance = 5/100, match_confidence = 275/3\<rparr>
   \<and> (275/3 :: real) = clamp01 (1 - (5/100) / (6/10)) * 100
   \<and> (1/10 :: real) \<le> 3/10
   \<and> clamp01 (1 - (3/10) / (6/10)) * 100 \<le> clamp01 (1 - (1/10) / (6/10)) * 100"
proof -
  let ?r = "\<lparr>matched = True, userId_m = Some 7, distance = 5/100, match_confidence = 275/3\<rparr>"
  have a: "(0::real) < 6/10" by simp
  note t = matchFace_confidence [OF a, of "[5/100, 0, 0]" "[(7, [0, 0, 0])]" ?r "1/10" "3/10" 7]
  from t have m: "matchFace [5/100, 0, 0] [(7, [0, 0, 0])] (6/10) = Inr ?r" by blast
  have k: "matched ?r" by simp
  from t m k have "match_confidence ?r = clamp01 (1 - distance ?r / (6/10)) * 100" by blast
  then have c: "(275/3 :: real) = clamp01 (1 - (5/100) / (6/10)) * 100" by simp
  have o: "(1/10 :: real) \<le> 3/10" by simp
  from t o have e: "clamp01 (1 - (3/10) / (6/10)) * 100 \<le> clamp01 (1 - (1/10) / (6/10)) * 100"
    by blast
  from a m k c o e show ?thesis by blast
qed

section \<open>Registration with an email that is taken\<close>

lemma getUserByEmail_Some_iff:
  "(\<exists>u. getUserByEmail e d = Some u) \<longleftrightarrow> e \<in> set (map email (filter is_active (users_v1 d)))"
proof -
  have "(filter (\<lambda>u. email u = e \<and> is_active u) (users_v1 d) \<noteq> []) \<longleftrightarrow>
        e \<in> set (map email (filter is_active (users_v1 d)))"
    by (auto simp: filter_empty_conv)
  then show ?thesis
    by (auto simp: getUserByEmail_def split: list.splits)
qed

lemma addFaceSamples_users:
  "users_v1 (snd (addFaceSamples now userId samples d)) = users_v1 d"
  by (induction samples arbitrary: d)
     (auto simp: addFaceSample_def split: sum.splits if_splits)

lemma createUser_users:
  "createUser now nm em enc d = Inr (i, d') \<Longrightarrow>
     em \<notin> set (map email (users_v1 d)) \<and>
     users_v1 d' = users_v1 d @ [\<lparr>id_user = seq_users d + 1, name = nm, email = em,
                        face_encoding = enc, created_at = now, is_active = True\<rparr>]"
  by (auto simp: createUser_def split: if_splits)

lemma register_cases:
  "register encode now body d = (resp, d') \<Longrightarrow>
     d' = d \<or>
     (\<exists>enc i d1 samples.
         createUser now (name_reg body) (email_reg body) enc d = Inr (i, d1)
         \<and> d' = snd (addFaceSamples now i samples d1))"
  unfolding register_def
  by (auto split: if_splits option.splits sum.splits list.splits prod.splits)
     (metis snd_conv)+

lemma register_users:
  "users_v1 (snd (register encode now body d)) = users_v1 d \<or>
   (email_reg body \<notin> set (map email (users_v1 d)) \<and>
    (\<exists>u. email u = email_reg body \<and> is_active u \<and>
         users_v1 (snd (register encode now body d)) = users_v1 d @ [u]))"
proof (cases "register encode now body d")
  case (Pair resp d')
  from register_cases [OF Pair] show ?thesis
  proof
    assume "d' = d"
    with Pair show ?thesis by simp
  next
    assume "\<exists>enc i d1 samples.
         createUser now (name_reg body) (email_reg body) enc d = Inr (i, d1)
         \<and> d' = snd (addFaceSamples now i samples d1)"
    then obtain enc i d1 samples where
      c: "createUser now (name_reg body) (email_reg body) enc d = Inr (i, d1)"
      and d': "d' = snd (addFaceSamples now i samples d1)" by blast
    from d' have "users_v1 d' = users_v1 d1" by (simp add: addFaceSamples_users)
    with createUser_users [OF c] Pair show ?thesis by simp
  qed
qed

lemma register_keeps_emails_distinct:
  assumes "distinct (map email (filter P (users_v1 d)))"
  shows "distinct (map email (filter P (users_v1 (snd (register encode now body d)))))"
  using register_users [of encode now body d] assms by auto

text \<open>
  Claim C9, as it is written, fails: the route validates the request before it looks the
  email up, so a request with the email of an active user and an empty name is answered
  with the validation failure, not with the duplicate failure.
\<close>

theorem register_invalid_duplicate_counterexample:
  "''ada@example.org'' \<in> set (map email (filter is_active (users_v1 demo_db)))
   \<and> register encode_stub 500
        \<lparr>name_reg = [], email_reg = ''ada@example.org'', face_images = [''photo'']\<rparr> demo_db
      = (Failure 400 ''Name, email, and at least one face image are required'', demo_db)"
  by (simp add: register_def demo_db_def)

text \<open>
  Claim C9, amended. A registration request that passes validation (name, email and at
  least one face image present) and whose email is that of an active user is answered with
  the 409 failure \<^verbatim>\<open>User with this email already exists\<close>, and the store is unchanged.
  Every request with such an email, valid or not, fails and leaves the store unchanged. If
  the emails of the active users are distinct before a registration, they are distinct
  after it.
\<close>

theorem register_duplicate_email:
  "(valid_registration body
      \<and> email_reg body \<in> set (map email (filter is_active (users_v1 d)))
      \<longrightarrow> register encode now body d =
            (Failure 409 ''User with this email already exists'', d))
   \<and> (email_reg body \<in> set (map email (filter is_active (users_v1 d)))
      \<longrightarrow> \<not> succeeded (fst (register encode now body d))
          \<and> snd (register encode now body d) = d)
   \<and> (active_emails_unique d
      \<longrightarrow> active_emails_unique (snd (register encode now body d)))"
proof (intro conjI impI)
  assume "valid_registration body
      \<and> email_reg body \<in> set (map email (filter is_active (users_v1 d)))"
  then obtain u where "valid_registration body" "getUserByEmail (email_reg body) d = Some u"
    using getUserByEmail_Some_iff [of "email_reg body" d] by blast
  then show "register encode now body d =
            (Failure 409 ''User with this email already exists'', d)"
    by (simp add: register_def valid_registration_def)
next
  assume "email_reg body \<in> set (map email (filter is_active (users_v1 d)))"
  then obtain u where u: "getUserByEmail (email_reg body) d = Some u"
    using getUserByEmail_Some_iff [of "email_reg body" d] by blast
  then show "\<not> succeeded (fst (register encode now body d))"
    by (simp add: register_def)
  from u show "snd (register encode now body d) = d"
    by (simp add: register_def)
next
  assume "active_emails_unique d"
  then show "active_emails_unique (snd (register encode now body d))"
    unfolding active_emails_unique_def by (rule register_keeps_emails_distinct)
qed

theorem register_duplicate_email_witness:
  "valid_registration \<lparr>name_reg = ''Ada L'', email_reg = ''ada@example.org'', face_images = [''photo'']\<rparr>
   \<and> ''ada@example.org'' \<in> set (map email (filter is_active (users_v1 demo_db)))
   \<and> active_emails_unique demo_db
   \<and> register encode_stub 500
        \<lparr>name_reg = ''Ada L'', email_reg = ''ada@example.org'', face_images = [''photo'']\<rparr> demo_db
      = (Failure 409 ''User with this email already exists'', demo_db)
   \<and> active_emails_unique (snd (register
        encode_stub 500
        \<lparr>name_reg = ''Ada L'', email_reg = ''ada@example.org'', face_images = [''photo'']\<rparr> demo_db))"
proof -
  let ?enc = "encode_stub"
  let ?body = "\<lparr>name_reg = ''Ada L'', email_reg = ''ada@example.org'', face_images = [''photo'']\<rparr>"
  have a: "valid_registration ?body" by (simp add: valid_registration_def)
  have b: "email_reg ?body \<in> set (map email (filter is_active (users_v1 demo_db)))"
    by (simp add: demo_db_def)
  have c: "active_emails_unique demo_db"
    by (simp add: active_emails_unique_def demo_db_def)
  note t = register_duplicate_email [of ?body demo_db ?enc 500]
  from t a b have r: "register ?enc 500 ?body demo_db =
      (Failure 409 ''User with this email already exists'', demo_db)" by blast
  from t c have u: "active_emails_unique (snd (register ?enc 500 ?body demo_db))" by blast
  from b have b': "''ada@example.org'' \<in> set (map email (filter is_active (users_v1 demo_db)))"
    by simp
  from a b' c r u show ?thesis by blast
qed



section \<open>Deactivated users\<close>

lemma pk_same_row:
  "distinct (map id_user us) \<Longrightarrow> u \<in> set us \<Longrightarrow> v \<in> set us \<Longrightarrow> id_user v = id_user u \<Longrightarrow> v = u"
  by (auto simp: distinct_map inj_on_def)

lemma email_same_row:
  "distinct (map email us) \<Longrightarrow> u \<in> set us \<Longrightarrow> v \<in> set us \<Longrightarrow> email v = email u \<Longrightarrow> v = u"
  by (auto simp: distinct_map inj_on_def)

lemma filter_remove1_other: "\<not> P u \<Longrightarrow> filter P (remove1 u xs) = filter P xs"
  by (induction xs) auto

text \<open>
  Claim C10, as it is written, fails: the attendance views join \<^verbatim>\<open>users_v1\<close> without
  the \<^verbatim>\<open>is_active\<close> filter, so a deactivated user who has an attendance row is shown,
  by name, in \<^verbatim>\<open>getTodayAttendance\<close> and in the recent check-ins of the statistics.
\<close>

theorem deactivated_user_shown_counterexample:
  "users_v1 demo_day ! 1 =
     \<lparr>id_user = 2, name = ''Bob'', email = ''bob@example.org'', face_encoding = ''[1,0,0]'',
      created_at = 20, is_active = False\<rparr>
   \<and> getTodayAttendance ''2024-05-01'' demo_day =
      [\<lparr>id_att = 2, user_id = 2, check_in_time = 110, check_out_time = None,
        date = ''2024-05-01'', confidence_score = 80, user_name = ''Bob''\<rparr>,
       \<lparr>id_att = 1, user_id = 1, check_in_time = 100, check_out_time = Some 200,
        date = ''2024-05-01'', confidence_score = 90, user_name = ''Ada''\<rparr>]"
  by (simp add: demo_day_def demo_db_def getTodayAttendance_def attendance_join_users_def
      join_user_def)

text \<open>
  Claim C10, amended. For a store with distinct user ids and distinct emails, and a user
  row in it whose \<^verbatim>\<open>is_active\<close> flag is not set: \<^verbatim>\<open>getUserById\<close> and
  \<^verbatim>\<open>getUserByEmail\<close> return null for its id and email, its id appears neither in
  \<^verbatim>\<open>getAllUsers\<close> nor in \<^verbatim>\<open>getAllUserEncodings\<close> (so it is never offered to the
  matcher nor listed as a user), and \<^verbatim>\<open>total_users\<close> is what it would be without the
  row.
\<close>

theorem deactivated_user_excluded:
  assumes pk: "users_pk d" and em: "users_email_unique d"
    and u: "u \<in> set (users_v1 d)" and off: "\<not> is_active u"
  shows "getUserById (id_user u) d = None
    \<and> getUserByEmail (email u) d = None
    \<and> id_user u \<notin> set (map fst (getAllUsers d))
    \<and> id_user u \<notin> set (map fst (getAllUserEncodings d))
    \<and> total_users (getAttendanceStats today d) =
        total_users (getAttendanceStats today (d\<lparr>users_v1 := remove1 u (users_v1 d)\<rparr>))"
proof (intro conjI)
  have by_id: "\<And>v. v \<in> set (users_v1 d) \<Longrightarrow> id_user v = id_user u \<Longrightarrow> \<not> is_active v"
    using pk_same_row [of "users_v1 d" u] pk u off by (auto simp: users_pk_def)
  have by_email: "\<And>v. v \<in> set (users_v1 d) \<Longrightarrow> email v = email u \<Longrightarrow> \<not> is_active v"
    using email_same_row [of "users_v1 d" u] em u off by (auto simp: users_email_unique_def)
  from by_id have "filter (\<lambda>v. id_user v = id_user u \<and> is_active v) (users_v1 d) = []"
    by (auto simp: filter_empty_conv)
  then show "getUserById (id_user u) d = None"
    by (simp add: getUserById_def)
  from by_email have "filter (\<lambda>v. email v = email u \<and> is_active v) (users_v1 d) = []"
    by (auto simp: filter_empty_conv)
  then show "getUserByEmail (email u) d = None"
    by (simp add: getUserByEmail_def)
  from by_id show "id_user u \<notin> set (map fst (getAllUsers d))"
    by (auto simp: getAllUsers_def)
  from by_id show "id_user u \<notin> set (map fst (getAllUserEncodings d))"
    by (auto simp: getAllUserEncodings_def)
  from off show "total_users (getAttendanceStats today d) =
        total_users (getAttendanceStats today (d\<lparr>users_v1 := remove1 u (users_v1 d)\<rparr>))"
    by (simp add: getAttendanceStats_def filter_remove1_other)
qed

theorem deactivated_user_excluded_witness:
  "users_pk demo_day \<and> users_email_unique demo_day
   \<and> bob \<in> set (users_v1 demo_day) \<and> \<not> is_active bob
   \<and> getUserById 2 demo_day = None
   \<and> getUserByEmail ''bob@example.org'' demo_day = None
   \<and> 2 \<notin> set (map fst (getAllUsers demo_day))
   \<and> 2 \<notin> set (map fst (getAllUserEncodings demo_day))"
proof -
  have a: "users_pk demo_day" by (simp add: users_pk_def demo_day_def demo_db_def)
  have b: "users_email_unique demo_day"
    by (simp add: users_email_unique_def demo_day_def demo_db_def)
  have c: "bob \<in> set (users_v1 demo_day)" by (simp add: bob_def demo_day_def demo_db_def)
  have e: "\<not> is_active bob" by (simp add: bob_def)
  note t = deactivated_user_excluded [OF a b c e, of "''2024-05-01''"]
  have i: "id_user bob = 2" and m: "email bob = ''bob@example.org''" by (simp_all add: bob_def)
  from t have "getUserById 2 demo_day = None" "getUserByEmail ''bob@example.org'' demo_day = None"
    "2 \<notin> set (map fst (getAllUsers demo_day))" "2 \<notin> set (map fst (getAllUserEncodings demo_day))"
    unfolding i m by blast+
  with a b c e show ?thesis by blast
qed

end
